theory Spec2Isabelle
  imports Complex_Main
begin

section \<open>JavaScript numbers\<close>

text \<open>
  The values of the TypeScript type \<open>number\<close> that the bot computes with: finite numbers,
  the two infinities and NaN. A finite number is a rational, and every arithmetic operation
  rounds its exact result as IEEE 754 binary64 arithmetic does: to the nearest value with
  53 significant bits and an exponent of at least \<open>-1074\<close>, a tie going to the even
  neighbour, and to an infinity from \<open>2 ^ 1024\<close> on. Zero has no sign. The sign of zero
  shows only in a division by zero and in the text of a number; the gains and the losses
  are positive or the literal \<open>0\<close>, so for a period of at least one no value computed by
  \<open>calculateRSI\<close> is a negative zero, and for a smaller period its result is NaN.
\<close>

datatype number = NaN | PosInf | NegInf | Fin rat

text \<open>The infinity with the sign of \<open>s\<close>; NaN when there is no sign.\<close>

definition inf_of_sign :: "rat \<Rightarrow> number" where
  "inf_of_sign s = (if 0 < s then PosInf else if s < 0 then NegInf else NaN)"

text \<open>The number of binary digits of a positive integer.\<close>

function bit_length :: "int \<Rightarrow> int" where
  "bit_length n = (if n \<le> 0 then 0 else 1 + bit_length (n div 2))"
  by pat_completeness auto
termination
  by (relation "measure nat") auto

declare bit_length.simps [simp del]

text \<open>
  For a positive rational \<open>a\<close>, the integer \<open>l\<close> with \<open>2 ^ l \<le> a < 2 ^ (l + 1)\<close>: the
  difference of the bit lengths of numerator and denominator, or one less.
\<close>

definition floor_log2 :: "rat \<Rightarrow> int" where
  "floor_log2 a =
     (case quotient_of a of (p, d) \<Rightarrow>
        let l = bit_length p - bit_length d
        in if 2 powi l \<le> a then l else l - 1)"

text \<open>The nearest integer, a tie going to the even one.\<close>

definition round_half_even :: "rat \<Rightarrow> int" where
  "round_half_even q =
     (let f = \<lfloor>q\<rfloor>; r = q - of_int f
      in if r < 1 / 2 then f else if 1 / 2 < r then f + 1 else if even f then f else f + 1)"

text \<open>
  The binary64 value of an exact result \<open>x\<close>. The last binary digit kept has the weight
  \<open>2 ^ e\<close>, where \<open>e\<close> is 52 below the exponent of \<open>x\<close> and at least \<open>-1074\<close> (the
  subnormal numbers).
\<close>

definition binary64 :: "rat \<Rightarrow> number" where
  "binary64 x =
     (if x = 0 then Fin 0
      else
        let e = max (floor_log2 \<bar>x\<bar> - 52) (- 1074);
            n = round_half_even (\<bar>x\<bar> / 2 powi e);
            m = of_int n * 2 powi e
        in if 2 ^ 1024 \<le> m then inf_of_sign x else Fin (sgn x * m))"

fun sign_of :: "number \<Rightarrow> rat" where
  "sign_of NaN = 0"
| "sign_of PosInf = 1"
| "sign_of NegInf = - 1"
| "sign_of (Fin a) = sgn a"

fun js_neg :: "number \<Rightarrow> number" where
  "js_neg NaN = NaN"
| "js_neg PosInf = NegInf"
| "js_neg NegInf = PosInf"
| "js_neg (Fin a) = Fin (- a)"

text \<open>\<open>a + b\<close>\<close>

fun js_add :: "number \<Rightarrow> number \<Rightarrow> number" where
  "js_add (Fin a) (Fin b) = binary64 (a + b)"
| "js_add NaN b = NaN"
| "js_add a NaN = NaN"
| "js_add PosInf NegInf = NaN"
| "js_add NegInf PosInf = NaN"
| "js_add PosInf b = PosInf"
| "js_add NegInf b = NegInf"
| "js_add (Fin a) PosInf = PosInf"
| "js_add (Fin a) NegInf = NegInf"

text \<open>\<open>a - b\<close>\<close>

definition js_sub :: "number \<Rightarrow> number \<Rightarrow> number" where
  "js_sub a b = js_add a (js_neg b)"

text \<open>\<open>a * b\<close>: an infinity times zero is NaN.\<close>

fun js_mul :: "number \<Rightarrow> number \<Rightarrow> number" where
  "js_mul (Fin a) (Fin b) = binary64 (a * b)"
| "js_mul NaN b = NaN"
| "js_mul a NaN = NaN"
| "js_mul a b = inf_of_sign (sign_of a * sign_of b)"

text \<open>
  \<open>a / b\<close>: a finite number over zero is an infinity with the sign of the numerator, and
  \<open>0 / 0\<close> is NaN; a finite number over an infinity is zero.
\<close>

fun js_div :: "number \<Rightarrow> number \<Rightarrow> number" where
  "js_div (Fin a) (Fin b) = (if b = 0 then inf_of_sign (sgn a) else binary64 (a / b))"
| "js_div NaN b = NaN"
| "js_div a NaN = NaN"
| "js_div (Fin a) b = Fin 0"
| "js_div a (Fin b) = inf_of_sign (sign_of a * (if b < 0 then - 1 else 1))"
| "js_div a b = NaN"

text \<open>\<open>a < b\<close>: false as soon as one side is NaN.\<close>

fun js_lt :: "number \<Rightarrow> number \<Rightarrow> bool" where
  "js_lt (Fin a) (Fin b) = (a < b)"
| "js_lt NaN b = False"
| "js_lt a NaN = False"
| "js_lt a NegInf = False"
| "js_lt NegInf b = True"
| "js_lt PosInf b = False"
| "js_lt (Fin a) PosInf = True"

text \<open>\<open>a > b\<close>\<close>

definition js_gt :: "number \<Rightarrow> number \<Rightarrow> bool" where
  "js_gt a b = js_lt b a"

text \<open>\<open>a === b\<close> on numbers: NaN is not equal to itself.\<close>

definition js_eq :: "number \<Rightarrow> number \<Rightarrow> bool" where
  "js_eq a b = (a \<noteq> NaN \<and> a = b)"

text \<open>\<open>a <= b\<close>\<close>

definition js_le :: "number \<Rightarrow> number \<Rightarrow> bool" where
  "js_le a b = (js_lt a b \<or> js_eq a b)"

text \<open>\<open>a >= b\<close>\<close>

definition js_ge :: "number \<Rightarrow> number \<Rightarrow> bool" where
  "js_ge a b = js_le b a"

text \<open>\<open>Math.abs\<close>\<close>

fun js_abs :: "number \<Rightarrow> number" where
  "js_abs NaN = NaN"
| "js_abs PosInf = PosInf"
| "js_abs NegInf = PosInf"
| "js_abs (Fin a) = Fin \<bar>a\<bar>"

text \<open>
  \<open>Math.round\<close>: the nearest integer, a half rounds up. The result is exact: an integer
  next to a binary64 value is a binary64 value.
\<close>

fun js_round :: "number \<Rightarrow> number" where
  "js_round (Fin a) = Fin (of_int \<lfloor>a + 1 / 2\<rfloor>)"
| "js_round a = a"

text \<open>
  An integer as a number. The integers of the program (\<open>period\<close>, \<open>period - 1\<close>, the
  thresholds) are below \<open>2 ^ 53\<close> in magnitude, where the conversion is exact.
\<close>

definition num :: "int \<Rightarrow> number" where
  "num i = Fin (of_int i)"

text \<open>
  \<open>xs[i]\<close> read as an operand of arithmetic: outside the array the read gives
  \<open>undefined\<close>, which arithmetic turns into NaN.
\<close>

definition js_nth :: "number list \<Rightarrow> int \<Rightarrow> number" where
  "js_nth xs i = (if 0 \<le> i \<and> i < int (length xs) then xs ! nat i else NaN)"

text \<open>\<open>xs.slice(0, e)\<close> for an integer \<open>e\<close>: a negative end counts from the end of the array.\<close>

definition slice0 :: "'a list \<Rightarrow> int \<Rightarrow> 'a list" where
  "slice0 xs e = (if e < 0 then take (nat (int (length xs) + e)) xs else take (nat e) xs)"

text \<open>\<open>xs.reduce((sum, x) => sum + x, 0)\<close>\<close>

definition sum_reduce :: "number list \<Rightarrow> number" where
  "sum_reduce xs = foldl js_add (Fin 0) xs"

section \<open>The indicator: calculateRSI\<close>

datatype error =
    InsufficientData int   \<comment> \<open>\<open>Se necesitan al menos n precios para calcular RSI\<close>\<close>
  | DataUnavailable        \<comment> \<open>\<open>No se pudieron obtener datos de Binance\<close>\<close>

definition RSI_PERIOD :: int where
  "RSI_PERIOD = 14"

text \<open>
  The first loop of \<open>calculateRSI\<close>: for \<open>i = 1 .. prices.length - 1\<close> the difference
  \<open>prices[i] - prices[i - 1]\<close>, in order.
\<close>

fun differences :: "number list \<Rightarrow> number list" where
  "differences (a # b # rest) = js_sub b a # differences (b # rest)"
| "differences rest = []"

definition gain_of :: "number \<Rightarrow> number" where
  "gain_of difference = (if js_gt difference (Fin 0) then difference else Fin 0)"

definition loss_of :: "number \<Rightarrow> number" where
  "loss_of difference = (if js_lt difference (Fin 0) then js_abs difference else Fin 0)"

text \<open>
  The second loop: \<open>for (let i = period; i < gains.length; i++)\<close>, on the pair
  \<open>(avgGain, avgLoss)\<close>.
\<close>

function smooth :: "int \<Rightarrow> number list \<Rightarrow> number list \<Rightarrow> int \<Rightarrow> number \<times> number \<Rightarrow> number \<times> number" where
  "smooth period gains losses i (avgGain, avgLoss) =
     (if i < int (length gains)
      then smooth period gains losses (i + 1)
             (js_div (js_add (js_mul avgGain (num (period - 1))) (js_nth gains i)) (num period),
              js_div (js_add (js_mul avgLoss (num (period - 1))) (js_nth losses i)) (num period))
      else (avgGain, avgLoss))"
  by pat_completeness auto
termination
  by (relation "measure (\<lambda>(period, gains, losses, i, avgs). nat (int (length gains) - i))") auto

declare smooth.simps [simp del]

text \<open>
  Lines 120 to 141 of \<open>calculateRSI\<close>: the gains and losses, their simple means over the
  first \<open>period\<close> entries, and the smoothing loop; the result is the final
  \<open>(avgGain, avgLoss)\<close>.
\<close>

definition averages :: "number list \<Rightarrow> int \<Rightarrow> number \<times> number" where
  "averages prices period =
     (let gains = map gain_of (differences prices);
          losses = map loss_of (differences prices);
          initialAvgGain = js_div (sum_reduce (slice0 gains period)) (num period);
          initialAvgLoss = js_div (sum_reduce (slice0 losses period)) (num period)
      in smooth period gains losses period (initialAvgGain, initialAvgLoss))"

definition calculateRSI :: "number list \<Rightarrow> int \<Rightarrow> error + number" where
  "calculateRSI prices period =
     (if int (length prices) < period + 1 then Inl (InsufficientData (period + 1))
      else
        case averages prices period of (avgGain, avgLoss) \<Rightarrow>
          if js_eq avgLoss (Fin 0) then Inr (Fin 100)
          else
            let rs = js_div avgGain avgLoss;
                rsi = js_sub (Fin 100) (js_div (Fin 100) (js_add (Fin 1) rs))
            in Inr (js_div (js_round (js_mul rsi (Fin 100))) (Fin 100)))"

section \<open>Data\<close>

text \<open>
  The interfaces of the source. Timestamps are integers (milliseconds, \<open>Date.now()\<close> or the
  literal \<open>0\<close>); the thresholds are integers (the literals \<open>30\<close> and \<open>70\<close>, or the result
  of \<open>parseInt\<close> on a string of digits); a chat id is an integer. The fields \<open>open\<close> and
  \<open>value\<close> carry a prefix because their names are reserved words here.
\<close>

record KlineData =
  openTime :: int
  k_open :: string
  high :: string
  low :: string
  close :: string
  volume :: string
  closeTime :: int
  quoteAssetVolume :: string
  numberOfTrades :: int
  takerBuyBaseAssetVolume :: string
  takerBuyQuoteAssetVolume :: string
  ignore :: string

record Thresholds =
  oversold :: int
  overbought :: int

record UserConfig =
  chatId :: int
  rsiThresholds :: Thresholds
  alertsEnabled :: bool
  lastAlertTime :: int
  channels :: "string list"

record RSIData =
  rsi_value :: number
  timestamp :: int
  price :: number

definition ALERT_COOLDOWN :: int where
  "ALERT_COOLDOWN = 300000"

section \<open>The current reading: getCurrentRSI\<close>

text \<open>
  \<open>getBinanceKlines\<close> is a network call: its outcome \<open>fetched\<close> is either the candles or
  the error it throws. \<open>parseFloat\<close> is a parameter. \<open>now\<close> is the value of \<open>Date.now()\<close>.
  An error of the fetch or of \<open>calculateRSI\<close> leaves the function as the exception does.
  The read \<open>closePrices[closePrices.length - 1]\<close> is in range whenever it is reached,
  since \<open>calculateRSI\<close> has thrown on fewer than fifteen prices.
\<close>

definition getCurrentRSI ::
  "(string \<Rightarrow> number) \<Rightarrow> error + KlineData list \<Rightarrow> int \<Rightarrow> error + RSIData" where
  "getCurrentRSI parseFloat fetched now =
     (case fetched of
        Inl e \<Rightarrow> Inl e
      | Inr klines \<Rightarrow>
          let closePrices = map (\<lambda>kline. parseFloat (close kline)) klines
          in case calculateRSI closePrices RSI_PERIOD of
               Inl e \<Rightarrow> Inl e
             | Inr rsiValue \<Rightarrow>
                 let currentPrice = js_nth closePrices (int (length closePrices) - 1)
                 in Inr \<lparr>rsi_value = rsiValue, timestamp = now, price = currentPrice\<rparr>)"

section \<open>The alert policy: shouldSendAlert\<close>

text \<open>\<open>now\<close> is the value of \<open>Date.now()\<close> read inside the function.\<close>

definition shouldSendAlert :: "UserConfig \<Rightarrow> RSIData \<Rightarrow> int \<Rightarrow> bool" where
  "shouldSendAlert userConfig rsiData now =
     (if \<not> alertsEnabled userConfig then False
      else
        let timeSinceLastAlert = now - lastAlertTime userConfig
        in if timeSinceLastAlert < ALERT_COOLDOWN then False
           else
             let isOversold = js_le (rsi_value rsiData) (num (oversold (rsiThresholds userConfig)));
                 isOverbought = js_ge (rsi_value rsiData) (num (overbought (rsiThresholds userConfig)))
             in isOversold \<or> isOverbought)"

section \<open>Sending messages\<close>

text \<open>
  \<open>bot.sendMessage\<close> takes a chat id (a number) or a channel (a string). The texts of the
  source are the constructors of \<open>message\<close>, with the values they interpolate.
\<close>

datatype target = Chat int | Channel string

datatype message =
    Alert bool RSIData          \<comment> \<open>ALERTA RSI BTC/USDT, with \<open>isOversold\<close> and the reading\<close>
  | ChannelWarning string       \<comment> \<open>No se pudo enviar alerta al canal ...\<close>
  | Welcome                     \<comment> \<open>Bot de Alertas RSI BTC/USDT ...\<close>
  | OutOfRange                  \<comment> \<open>El valor debe estar entre 1 y 99\<close>
  | OversoldSet int             \<comment> \<open>Umbral de sobreventa configurado a ...\<close>
  | OverboughtSet int           \<comment> \<open>Umbral de sobrecompra configurado a ...\<close>
  | UseStartFirst               \<comment> \<open>Primero usa /start para inicializar el bot\<close>
  | InvalidFormat               \<comment> \<open>Formato invalido. Usa: ...\<close>
  | AlreadyListed string        \<comment> \<open>El canal ... ya esta en la lista\<close>
  | TestMessage bool string     \<comment> \<open>Bot RSI anadido correctamente ..., with \<open>isUsername\<close>\<close>
  | Added bool string           \<comment> \<open>Canal ... anadido correctamente, with \<open>isUsername\<close>\<close>
  | AddFailed bool string       \<comment> \<open>No se pudo anadir ..., with \<open>isUsername\<close>\<close>
  | NotListed string            \<comment> \<open>El canal ... no esta en la lista\<close>
  | Removed string              \<comment> \<open>Canal ... eliminado de la lista\<close>
  | Toggled bool                \<comment> \<open>Alertas activadas / desactivadas\<close>

text \<open>
  The chat platform decides whether a send succeeds: the outcome of the \<open>n\<close>-th send of the
  run may depend on \<open>n\<close>, on the target and on the message. Every attempt is recorded with
  its outcome.
\<close>

type_synonym network = "nat \<Rightarrow> target \<Rightarrow> message \<Rightarrow> bool"

type_synonym attempt = "target \<times> message \<times> bool"

record state =
  userConfigs :: "int \<rightharpoonup> UserConfig"
  sends :: "attempt list"

definition initial :: state where
  "initial = \<lparr>userConfigs = Map.empty, sends = []\<rparr>"

text \<open>\<open>await bot.sendMessage(to, body)\<close>: \<open>False\<close> is the rejection of the promise.\<close>

definition sendMessage :: "network \<Rightarrow> target \<Rightarrow> message \<Rightarrow> state \<Rightarrow> bool \<times> state" where
  "sendMessage net to body st =
     (let ok = net (length (sends st)) to body
      in (ok, st\<lparr>sends := sends st @ [(to, body, ok)]\<rparr>))"

text \<open>A send whose rejection changes nothing in the state: caught, or left unhandled.\<close>

definition send_quietly :: "network \<Rightarrow> target \<Rightarrow> message \<Rightarrow> state \<Rightarrow> state" where
  "send_quietly net to body st = snd (sendMessage net to body st)"

section \<open>The dispatcher: sendRSIAlert\<close>

text \<open>
  The loop over \<open>userConfig.channels\<close>. The result is \<open>False\<close> when an exception left the
  loop: the send of the warning, inside the \<open>catch\<close> of the channel's send, is itself not
  guarded.
\<close>

fun send_to_channels :: "network \<Rightarrow> int \<Rightarrow> message \<Rightarrow> string list \<Rightarrow> state \<Rightarrow> bool \<times> state" where
  "send_to_channels net chat message [] st = (True, st)"
| "send_to_channels net chat message (channel # rest) st =
     (case sendMessage net (Channel channel) message st of
        (True, st1) \<Rightarrow> send_to_channels net chat message rest st1
      | (False, st1) \<Rightarrow>
          (case sendMessage net (Chat chat) (ChannelWarning channel) st1 of
             (True, st2) \<Rightarrow> send_to_channels net chat message rest st2
           | (False, st2) \<Rightarrow> (False, st2)))"

text \<open>
  \<open>finished\<close> is the value of \<open>Date.now()\<close> at line 235. An exception inside the outer
  \<open>try\<close> (a failed send to the chat, or no entry for the chat at line 235) is caught and
  logged, and the function returns. The dispatch is taken on its own: no command handler
  runs between its sends.
\<close>

definition sendRSIAlert :: "network \<Rightarrow> int \<Rightarrow> RSIData \<Rightarrow> UserConfig \<Rightarrow> int \<Rightarrow> state \<Rightarrow> state" where
  "sendRSIAlert net chat rsiData userConfig finished st =
     (let isOversold = js_le (rsi_value rsiData) (num (oversold (rsiThresholds userConfig)));
          message = Alert isOversold rsiData
      in case sendMessage net (Chat chat) message st of
           (False, st1) \<Rightarrow> st1
         | (True, st1) \<Rightarrow>
             (case send_to_channels net chat message (channels userConfig) st1 of
                (False, st2) \<Rightarrow> st2
              | (True, st2) \<Rightarrow>
                  (case userConfigs st2 chat of
                     None \<Rightarrow> st2
                   | Some current \<Rightarrow>
                       st2\<lparr>userConfigs := (userConfigs st2)(chat \<mapsto> current\<lparr>lastAlertTime := finished\<rparr>)\<rparr>)))"

section \<open>The patterns of the channel formats\<close>

text \<open>
  The two regular expressions of the add-channel command, \<open>/^@\w+$/\<close> and
  \<open>/^-100\d{10}$/\<close>, are sequences of character classes, each taken once, one or more
  times (\<open>+\<close>) or exactly \<open>n\<close> times (\<open>{n}\<close>), anchored at both ends of the input.
  Without the \<open>u\<close> and \<open>i\<close> flags \<open>\w\<close> is \<open>[A-Za-z0-9_]\<close> and \<open>\d\<close> is \<open>[0-9]\<close>; without
  the \<open>m\<close> flag \<open>$\<close> is the end of the input.
\<close>

datatype char_class = Lit char | Word | Digit

datatype quantifier = Once | OneOrMore | Exactly nat

type_synonym pattern = "(char_class \<times> quantifier) list"

definition digit_char :: "char \<Rightarrow> bool" where
  "digit_char c = (c \<in> set ''0123456789'')"

definition word_char :: "char \<Rightarrow> bool" where
  "word_char c =
     (c \<in> set ''abcdefghijklmnopqrstuvwxyzABCDEFGHIJKLMNOPQRSTUVWXYZ0123456789_'')"

fun in_class :: "char_class \<Rightarrow> char \<Rightarrow> bool" where
  "in_class (Lit l) c = (c = l)"
| "in_class Word c = word_char c"
| "in_class Digit c = digit_char c"

text \<open>
  \<open>matches p s\<close>: the pattern \<open>^p$\<close> matches the string \<open>s\<close>. A \<open>+\<close> may take any
  non-empty prefix of characters of its class, as the backtracking of the engine tries.
\<close>

fun matches :: "pattern \<Rightarrow> string \<Rightarrow> bool" where
  "matches [] s = (s = [])"
| "matches ((cl, Once) # p) s =
     (case s of [] \<Rightarrow> False | c # rest \<Rightarrow> in_class cl c \<and> matches p rest)"
| "matches ((cl, Exactly n) # p) s =
     (n \<le> length s \<and> list_all (in_class cl) (take n s) \<and> matches p (drop n s))"
| "matches ((cl, OneOrMore) # p) s =
     list_ex (\<lambda>k. list_all (in_class cl) (take k s) \<and> matches p (drop k s)) [1..<Suc (length s)]"

text \<open>\<open>/^@\w+$/\<close>\<close>

definition username_pattern :: pattern where
  "username_pattern = [(Lit CHR ''@'', Once), (Word, OneOrMore)]"

text \<open>\<open>/^-100\d{10}$/\<close>\<close>

definition chat_id_pattern :: pattern where
  "chat_id_pattern =
     [(Lit CHR ''-'', Once), (Lit CHR ''1'', Once), (Lit CHR ''0'', Once), (Lit CHR ''0'', Once),
      (Digit, Exactly 10)]"

section \<open>The commands\<close>

text \<open>
  Each handler takes the chat id of the message and the captured argument, after
  \<open>parseInt\<close> or \<open>trim\<close>. A handler runs without interruption up to an \<open>await\<close>; there
  other handlers may run before it goes on. The handlers of \<open>/start\<close>,
  \<open>/set_oversold\<close>, \<open>/set_overbought\<close>, \<open>/remove_channel\<close> and \<open>/toggle\<close> read and
  write the registry and call \<open>bot.sendMessage\<close> before their first \<open>await\<close> and only
  log after it, so each of them is one step. The handler of \<open>/add_channel\<close> writes the
  registry after its first \<open>await\<close> and is several steps.
\<close>

text \<open>\<open>/start\<close>: the rejection of the welcome message is caught.\<close>

definition on_start :: "network \<Rightarrow> int \<Rightarrow> state \<Rightarrow> state" where
  "on_start net chat st =
     send_quietly net (Chat chat) Welcome
       (st\<lparr>userConfigs := (userConfigs st)(chat \<mapsto>
          \<lparr>chatId = chat,
           rsiThresholds = \<lparr>oversold = 30, overbought = 70\<rparr>,
           alertsEnabled = True,
           lastAlertTime = 0,
           channels = []\<rparr>)\<rparr>)"

text \<open>\<open>/set_oversold (\d+)\<close>\<close>

definition on_set_oversold :: "network \<Rightarrow> int \<Rightarrow> int \<Rightarrow> state \<Rightarrow> state" where
  "on_set_oversold net chat v st =
     (if v < 1 \<or> v > 99 then send_quietly net (Chat chat) OutOfRange st
      else
        case userConfigs st chat of
          Some userConfig \<Rightarrow>
            send_quietly net (Chat chat) (OversoldSet v)
              (st\<lparr>userConfigs := (userConfigs st)(chat \<mapsto>
                 userConfig\<lparr>rsiThresholds := (rsiThresholds userConfig)\<lparr>oversold := v\<rparr>\<rparr>)\<rparr>)
        | None \<Rightarrow> send_quietly net (Chat chat) UseStartFirst st)"

text \<open>\<open>/set_overbought (\d+)\<close>\<close>

definition on_set_overbought :: "network \<Rightarrow> int \<Rightarrow> int \<Rightarrow> state \<Rightarrow> state" where
  "on_set_overbought net chat v st =
     (if v < 1 \<or> v > 99 then send_quietly net (Chat chat) OutOfRange st
      else
        case userConfigs st chat of
          Some userConfig \<Rightarrow>
            send_quietly net (Chat chat) (OverboughtSet v)
              (st\<lparr>userConfigs := (userConfigs st)(chat \<mapsto>
                 userConfig\<lparr>rsiThresholds := (rsiThresholds userConfig)\<lparr>overbought := v\<rparr>\<rparr>)\<rparr>)
        | None \<Rightarrow> send_quietly net (Chat chat) UseStartFirst st)"

text \<open>
  \<open>/add_channel (.+)\<close>. The handler is suspended at line 396, where it awaits the test
  message to the channel, and at line 403, where it awaits the confirmation to the chat.
  A suspended handler keeps its chat, its input and \<open>isUsername\<close>, and the
  \<open>userConfig\<close> object it read at line 369. \<open>settled\<close> is the outcome of the send it
  awaits. \<open>holds_entry\<close> says whether the object it keeps is still the entry of the chat in
  \<open>userConfigs\<close>: a later \<open>/start\<close> of the chat puts a new object there, and a push to
  the old one no longer shows in the registry.
\<close>

datatype awaiting = Probe | Confirmation | Finished

record suspended =
  handler_chat :: int
  handler_input :: string
  handler_isUsername :: bool
  waits_at :: awaiting
  settled :: bool
  holds_entry :: bool

text \<open>
  Lines 364 to 396: the lookup, the format check, the duplicate check and the call that
  sends the test message. The result is the new state and the handler suspended at the
  \<open>await\<close> of line 396, or no handler when it has replied and returned.
\<close>

definition add_channel_begin ::
  "network \<Rightarrow> int \<Rightarrow> string \<Rightarrow> state \<Rightarrow> state \<times> suspended option" where
  "add_channel_begin net chat channelInput st =
     (case userConfigs st chat of
        None \<Rightarrow> (send_quietly net (Chat chat) UseStartFirst st, None)
      | Some userConfig \<Rightarrow>
          let isUsername = matches username_pattern channelInput;
              isChatId = matches chat_id_pattern channelInput
          in if \<not> isUsername \<and> \<not> isChatId
             then (send_quietly net (Chat chat) InvalidFormat st, None)
             else if channelInput \<in> set (channels userConfig)
             then (send_quietly net (Chat chat) (AlreadyListed channelInput) st, None)
             else
               case sendMessage net (Channel channelInput) (TestMessage isUsername channelInput) st of
                 (ok, st1) \<Rightarrow>
                   (st1, Some \<lparr>handler_chat = chat, handler_input = channelInput,
                               handler_isUsername = isUsername, waits_at = Probe,
                               settled = ok, holds_entry = True\<rparr>))"

text \<open>
  Line 397, \<open>userConfig.channels.push(channelInput)\<close>, on the object the handler keeps:
  the entry of the chat as it is now, when the handler still holds it.
\<close>

definition push_channel :: "suspended \<Rightarrow> state \<Rightarrow> state" where
  "push_channel h st =
     (if holds_entry h
      then case userConfigs st (handler_chat h) of
             None \<Rightarrow> st
           | Some userConfig \<Rightarrow>
               st\<lparr>userConfigs := (userConfigs st)(handler_chat h \<mapsto>
                    userConfig\<lparr>channels := channels userConfig @ [handler_input h]\<rparr>)\<rparr>
      else st)"

text \<open>
  The handler goes on after the send it awaited has settled. After the test message:
  delivered, it pushes the channel and sends the confirmation (lines 397 to 403);
  rejected, the \<open>catch\<close> sends the add-failed reply (line 412). After the confirmation:
  delivered, it returns; rejected, the same \<open>catch\<close> sends the add-failed reply.
\<close>

definition add_channel_resume :: "network \<Rightarrow> suspended \<Rightarrow> state \<Rightarrow> state \<times> suspended" where
  "add_channel_resume net h st =
     (case waits_at h of
        Probe \<Rightarrow>
          if settled h
          then case sendMessage net (Chat (handler_chat h))
                      (Added (handler_isUsername h) (handler_input h)) (push_channel h st) of
                 (ok, st1) \<Rightarrow> (st1, h\<lparr>waits_at := Confirmation, settled := ok\<rparr>)
          else (send_quietly net (Chat (handler_chat h))
                  (AddFailed (handler_isUsername h) (handler_input h)) st,
                h\<lparr>waits_at := Finished\<rparr>)
      | Confirmation \<Rightarrow>
          if settled h then (st, h\<lparr>waits_at := Finished\<rparr>)
          else (send_quietly net (Chat (handler_chat h))
                  (AddFailed (handler_isUsername h) (handler_input h)) st,
                h\<lparr>waits_at := Finished\<rparr>)
      | Finished \<Rightarrow> (st, h))"

text \<open>
  \<open>/remove_channel (.+)\<close>: \<open>indexOf\<close> and \<open>splice(index, 1)\<close> remove the first occurrence.
\<close>

definition on_remove_channel :: "network \<Rightarrow> int \<Rightarrow> string \<Rightarrow> state \<Rightarrow> state" where
  "on_remove_channel net chat channelInput st =
     (case userConfigs st chat of
        None \<Rightarrow> send_quietly net (Chat chat) UseStartFirst st
      | Some userConfig \<Rightarrow>
          if channelInput \<in> set (channels userConfig)
          then send_quietly net (Chat chat) (Removed channelInput)
                 (st\<lparr>userConfigs := (userConfigs st)(chat \<mapsto>
                    userConfig\<lparr>channels := remove1 channelInput (channels userConfig)\<rparr>)\<rparr>)
          else send_quietly net (Chat chat) (NotListed channelInput) st)"

text \<open>\<open>/toggle\<close>\<close>

definition on_toggle :: "network \<Rightarrow> int \<Rightarrow> state \<Rightarrow> state" where
  "on_toggle net chat st =
     (case userConfigs st chat of
        None \<Rightarrow> send_quietly net (Chat chat) UseStartFirst st
      | Some userConfig \<Rightarrow>
          send_quietly net (Chat chat) (Toggled (\<not> alertsEnabled userConfig))
            (st\<lparr>userConfigs := (userConfigs st)(chat \<mapsto>
               userConfig\<lparr>alertsEnabled := \<not> alertsEnabled userConfig\<rparr>)\<rparr>))"

text \<open>
  The bot, one event at a time: a command of a chat arrives and its handler runs up to its
  first \<open>await\<close>, or the \<open>i\<close>-th add-channel handler that was suspended goes on. The
  state of the bot is the state above and the add-channel handlers started so far. An
  event list is any interleaving of the handlers. The dispatcher is not among the events:
  the only field of the registry it writes is \<open>lastAlertTime\<close>.
\<close>

datatype command =
    Start
  | SetOversold int
  | SetOverbought int
  | AddChannel string
  | RemoveChannel string
  | Toggle

datatype event = Command int command | Resume nat

text \<open>After \<open>/start\<close> of a chat, no suspended handler of the chat holds its entry.\<close>

definition lose_entry :: "int \<Rightarrow> suspended \<Rightarrow> suspended" where
  "lose_entry chat h = (if handler_chat h = chat then h\<lparr>holds_entry := False\<rparr> else h)"

fun step :: "network \<Rightarrow> event \<Rightarrow> state \<times> suspended list \<Rightarrow> state \<times> suspended list" where
  "step net (Command chat Start) (st, hs) = (on_start net chat st, map (lose_entry chat) hs)"
| "step net (Command chat (SetOversold v)) (st, hs) = (on_set_oversold net chat v st, hs)"
| "step net (Command chat (SetOverbought v)) (st, hs) = (on_set_overbought net chat v st, hs)"
| "step net (Command chat (AddChannel channelInput)) (st, hs) =
     (case add_channel_begin net chat channelInput st of
        (st1, None) \<Rightarrow> (st1, hs)
      | (st1, Some h) \<Rightarrow> (st1, hs @ [h]))"
| "step net (Command chat (RemoveChannel channelInput)) (st, hs) =
     (on_remove_channel net chat channelInput st, hs)"
| "step net (Command chat Toggle) (st, hs) = (on_toggle net chat st, hs)"
| "step net (Resume i) (st, hs) =
     (if i < length hs
      then case add_channel_resume net (hs ! i) st of (st1, h) \<Rightarrow> (st1, hs[i := h])
      else (st, hs))"

definition run :: "network \<Rightarrow> event list \<Rightarrow> state \<times> suspended list \<Rightarrow> state \<times> suspended list" where
  "run net events sys = foldl (\<lambda>b event. step net event b) sys events"

text \<open>
  The channels that add-channel handlers of a chat are about to push: the inputs of the
  handlers that wait for their test message and hold the entry of the chat.
\<close>

definition awaited_channels :: "int \<Rightarrow> suspended list \<Rightarrow> string list" where
  "awaited_channels chat hs =
     map handler_input
       (filter (\<lambda>h. handler_chat h = chat \<and> waits_at h = Probe \<and> holds_entry h) hs)"

text \<open>
  An add-channel command overlaps when an earlier add-channel handler of the same chat
  for the same channel still waits for its test message.
\<close>

fun overlaps :: "event \<Rightarrow> state \<times> suspended list \<Rightarrow> bool" where
  "overlaps (Command chat (AddChannel channelInput)) (st, hs) =
     (channelInput \<in> set (awaited_channels chat hs))"
| "overlaps event sys = False"

text \<open>No event of the list overlaps in the state in which it arrives.\<close>

fun no_overlap :: "network \<Rightarrow> event list \<Rightarrow> state \<times> suspended list \<Rightarrow> bool" where
  "no_overlap net [] sys = True"
| "no_overlap net (event # events) sys =
     (\<not> overlaps event sys \<and> no_overlap net events (step net event sys))"

section \<open>The formats as the specification words them\<close>

text \<open>A handle: \<open>@\<close> followed by one or more word characters.\<close>

definition handle_format :: "string \<Rightarrow> bool" where
  "handle_format s =
     (case s of [] \<Rightarrow> False | c # rest \<Rightarrow> c = CHR ''@'' \<and> rest \<noteq> [] \<and> list_all word_char rest)"

text \<open>A numeric id: \<open>-100\<close> followed by exactly ten digits.\<close>

definition numeric_id_format :: "string \<Rightarrow> bool" where
  "numeric_id_format s =
     (take 4 s = ''-100'' \<and> length (drop 4 s) = 10 \<and> list_all digit_char (drop 4 s))"

section \<open>Well-formed states and the record of a dispatch\<close>

text \<open>
  What holds of the bot as long as no add-channel command overlaps: for every entry of
  the registry, its channels together with the channels about to be pushed to it are
  pairwise different, and its channels passed the format check; and the input of every
  handler that waits for its test message passed the format check.
\<close>

definition valid_format :: "string \<Rightarrow> bool" where
  "valid_format c = (matches username_pattern c \<or> matches chat_id_pattern c)"

definition bot_ok :: "state \<times> suspended list \<Rightarrow> bool" where
  "bot_ok sys =
     ((\<forall>chat userConfig. userConfigs (fst sys) chat = Some userConfig \<longrightarrow>
         distinct (channels userConfig @ awaited_channels chat (snd sys))
         \<and> list_all valid_format (channels userConfig))
      \<and> (\<forall>h \<in> set (snd sys). waits_at h = Probe \<longrightarrow> valid_format (handler_input h)))"

text \<open>The channels a list of attempts was sent to, in order.\<close>

fun channels_tried :: "attempt list \<Rightarrow> string list" where
  "channels_tried [] = []"
| "channels_tried ((Channel channel, body, ok) # rest) = channel # channels_tried rest"
| "channels_tried ((Chat chat, body, ok) # rest) = channels_tried rest"

text \<open>The channels whose send was rejected, in order.\<close>

fun channels_failed :: "attempt list \<Rightarrow> string list" where
  "channels_failed [] = []"
| "channels_failed ((Channel channel, body, False) # rest) = channel # channels_failed rest"
| "channels_failed (other # rest) = channels_failed rest"

text \<open>The channels named by the warnings that reached the chat, in order.\<close>

fun warnings_delivered :: "int \<Rightarrow> attempt list \<Rightarrow> string list" where
  "warnings_delivered chat [] = []"
| "warnings_delivered chat ((Chat c, ChannelWarning channel, True) # rest) =
     (if c = chat then channel # warnings_delivered chat rest else warnings_delivered chat rest)"
| "warnings_delivered chat (other # rest) = warnings_delivered chat rest"

section \<open>Concrete inputs\<close>

definition always_delivered :: network where
  "always_delivered n to body = True"

text \<open>Only the first send of the run is delivered.\<close>

definition first_send_only :: network where
  "first_send_only n to body = (n = 0)"

definition oversold_reading :: RSIData where
  "oversold_reading = \<lparr>rsi_value = Fin 25, timestamp = 1000, price = Fin 50000\<rparr>"

definition two_channel_config :: UserConfig where
  "two_channel_config =
     \<lparr>chatId = 5, rsiThresholds = \<lparr>oversold = 30, overbought = 70\<rparr>, alertsEnabled = True,
      lastAlertTime = 0, channels = [''@a'', ''@b'']\<rparr>"

definition two_channel_state :: state where
  "two_channel_state = \<lparr>userConfigs = [5 \<mapsto> two_channel_config], sends = []\<rparr>"

text \<open>
  Chat 1 registers and adds \<open>@abc\<close>; the handler goes on twice, after its test message
  and after its confirmation.
\<close>

definition abc_events :: "event list" where
  "abc_events = [Command 1 Start, Command 1 (AddChannel ''@abc''), Resume 0, Resume 0]"

definition abc_config :: UserConfig where
  "abc_config =
     \<lparr>chatId = 1, rsiThresholds = \<lparr>oversold = 30, overbought = 70\<rparr>, alertsEnabled = True,
      lastAlertTime = 0, channels = [''@abc'']\<rparr>"

definition abc_state :: state where
  "abc_state =
     \<lparr>userConfigs = [1 \<mapsto> abc_config],
      sends = [(Chat 1, Welcome, True), (Channel ''@abc'', TestMessage True ''@abc'', True),
               (Chat 1, Added True ''@abc'', True)]\<rparr>"

definition abc_handler :: suspended where
  "abc_handler =
     \<lparr>handler_chat = 1, handler_input = ''@abc'', handler_isUsername = True,
      waits_at = Finished, settled = True, holds_entry = True\<rparr>"

text \<open>A handler of chat 1 that waits for the test message to a second channel.\<close>

definition waiting_handler :: suspended where
  "waiting_handler =
     \<lparr>handler_chat = 1, handler_input = ''-1001234567890'', handler_isUsername = False,
      waits_at = Probe, settled = True, holds_entry = True\<rparr>"

text \<open>Chat 1 registers and sends \<open>/add_channel @abc\<close> twice before either handler goes on.\<close>

definition overlapping_events :: "event list" where
  "overlapping_events =
     [Command 1 Start, Command 1 (AddChannel ''@abc''), Command 1 (AddChannel ''@abc''),
      Resume 0, Resume 1]"

definition sample_kline :: KlineData where
  "sample_kline =
     \<lparr>openTime = 0, k_open = ''41.5'', high = ''43'', low = ''41'', close = ''42'',
      volume = ''10'', closeTime = 299999, quoteAssetVolume = ''420'', numberOfTrades = 3,
      takerBuyBaseAssetVolume = ''5'', takerBuyQuoteAssetVolume = ''210'', ignore = ''0''\<rparr>"

text \<open>A stand-in for \<open>parseFloat\<close> on concrete inputs: the length of the string.\<close>

definition length_as_number :: "string \<Rightarrow> number" where
  "length_as_number s = Fin (of_nat (length s))"

section \<open>Insufficient data\<close>

text \<open>
  C4. \<open>calculateRSI\<close> fails with the insufficient-data error, and so returns no value,
  exactly when the price sequence has fewer than \<open>period + 1\<close> elements; on every sequence
  of at least \<open>period + 1\<close> elements it returns a number.
\<close>

theorem calculateRSI_insufficient_data:
  "(int (length prices) < period + 1 \<longrightarrow>
      calculateRSI prices period = Inl (InsufficientData (period + 1)))
   \<and> (period + 1 \<le> int (length prices) \<longrightarrow>
      (\<exists>v. calculateRSI prices period = Inr v))"
  by (simp add: calculateRSI_def Let_def split: prod.split)

theorem calculateRSI_insufficient_data_witness:
  "int (length [Fin 1, Fin 2]) < 14 + 1
   \<and> calculateRSI [Fin 1, Fin 2] 14 = Inl (InsufficientData (14 + 1))
   \<and> 1 + 1 \<le> int (length [Fin 1, Fin 2])
   \<and> (\<exists>v. calculateRSI [Fin 1, Fin 2] 1 = Inr v)"
  using calculateRSI_insufficient_data [of "[Fin 1, Fin 2]" 14]
    calculateRSI_insufficient_data [of "[Fin 1, Fin 2]" 1]
  by simp

section \<open>Rounding\<close>

text \<open>
  The bounds of \<open>bit_length\<close> and \<open>floor_log2\<close>; a value with at most 53 significant
  bits, an exponent of at least \<open>-1074\<close> and a magnitude below \<open>2 ^ 1024\<close> is its own
  rounding; a magnitude of at least \<open>2 ^ 1024\<close> rounds to an infinity; rounding keeps
  zero and the sign.
\<close>

lemma bit_length_nonneg: "0 \<le> bit_length n"
proof (induction n rule: bit_length.induct)
  case (1 n)
  then show ?case by (subst bit_length.simps) simp
qed

lemma bit_length_pos: "0 < n \<Longrightarrow> 1 \<le> bit_length n"
  using bit_length_nonneg [of "n div 2"] by (subst bit_length.simps) simp

lemma bit_length_bounds:
  "0 < n \<Longrightarrow> 2 ^ nat (bit_length n - 1) \<le> n \<and> n < 2 ^ nat (bit_length n)"
proof (induction n rule: bit_length.induct)
  case (1 n)
  show ?case
  proof (cases "n div 2 = 0")
    case True
    with 1(2) have "n = 1" by presburger
    then show ?thesis
      by (simp add: bit_length.simps [of 1] bit_length.simps [of 0])
  next
    case False
    with 1(2) have h: "0 < n div 2" by presburger
    define k where "k = bit_length (n div 2)"
    have k1: "1 \<le> k" unfolding k_def using h by (rule bit_length_pos)
    from 1(1) h 1(2) have ih: "2 ^ nat (k - 1) \<le> n div 2" "n div 2 < 2 ^ nat k"
      by (simp_all add: k_def)
    have bl: "bit_length n = 1 + k"
      using 1(2) by (subst bit_length.simps) (simp add: k_def)
    have p: "(2::int) ^ nat k = 2 * 2 ^ nat (k - 1)"
      using k1 by (metis Suc_nat_eq_nat_zadd1 add.commute diff_add_cancel diff_ge_0_iff_ge power_Suc)
    have q: "(2::int) ^ nat (1 + k) = 2 * 2 ^ nat k"
      using k1 by (simp add: nat_add_distrib)
    have "2 * (n div 2) \<le> n" "n \<le> 2 * (n div 2) + 1" by presburger+
    with ih show ?thesis
      unfolding bl using p q by simp
  qed
qed

lemma power_int_nat: "0 \<le> k \<Longrightarrow> (2::rat) powi k = 2 ^ nat k"
  by (simp add: power_int_def)

lemma bit_length_bounds_rat:
  assumes "0 < n"
  shows "2 powi (bit_length n - 1) \<le> rat_of_int n" "rat_of_int n < 2 powi (bit_length n)"
proof -
  from bit_length_bounds [OF assms]
  have a: "2 ^ nat (bit_length n - 1) \<le> n" and b: "n < 2 ^ nat (bit_length n)" by simp_all
  have k: "1 \<le> bit_length n" using assms by (rule bit_length_pos)
  have "rat_of_int (2 ^ nat (bit_length n - 1)) \<le> rat_of_int n"
    using a by (simp only: of_int_le_iff)
  then show "2 powi (bit_length n - 1) \<le> rat_of_int n"
    using k by (simp add: power_int_nat)
  have "rat_of_int n < rat_of_int (2 ^ nat (bit_length n))"
    using b by (simp only: of_int_less_iff)
  then show "rat_of_int n < 2 powi (bit_length n)"
    using k by (simp add: power_int_nat)
qed

lemma floor_log2_bounds:
  assumes "0 < a"
  shows "2 powi (floor_log2 a) \<le> a" "a < 2 powi (floor_log2 a + 1)"
proof -
  obtain p d where pd: "quotient_of a = (p, d)" by (cases "quotient_of a")
  then have d: "0 < d" and a: "a = rat_of_int p / rat_of_int d"
    using quotient_of_denom_pos [OF pd] quotient_of_div [OF pd] by simp_all
  with assms have p: "0 < p"
    by (simp add: zero_less_divide_iff)
  define l where "l = bit_length p - bit_length d"
  note bp = bit_length_bounds_rat [OF p] and bd = bit_length_bounds_rat [OF d]
  have dpos: "0 < rat_of_int d" using d by simp
  have "a < 2 powi (bit_length p) / 2 powi (bit_length d - 1)"
    unfolding a using bp(2) bd(1) dpos p
    by (intro frac_less) simp_all
  also have "\<dots> = 2 powi (l + 1)"
    by (simp add: l_def power_int_diff [symmetric] algebra_simps)
  finally have up: "a < 2 powi (l + 1)" .
  have "2 powi (bit_length p - 1) / 2 powi (bit_length d) < a"
    unfolding a using bp(1) bd(2) dpos
    by (intro frac_less2) simp_all
  moreover have "2 powi (bit_length p - 1) / 2 powi (bit_length d) = (2::rat) powi (l - 1)"
    by (simp add: l_def power_int_diff [symmetric] algebra_simps)
  ultimately have lo: "2 powi (l - 1) \<le> a" by simp
  have fl: "floor_log2 a = (if 2 powi l \<le> a then l else l - 1)"
    by (simp add: floor_log2_def pd l_def Let_def)
  show "2 powi (floor_log2 a) \<le> a"
    using lo by (simp add: fl)
  show "a < 2 powi (floor_log2 a + 1)"
    using up by (simp add: fl not_le)
qed


lemma binary64_zero [simp]: "binary64 0 = Fin 0"
  by (simp add: binary64_def)

lemma round_half_even_of_int [simp]: "round_half_even (rat_of_int k) = k"
  by (simp add: round_half_even_def)

lemma floor_le_round_half_even: "\<lfloor>q\<rfloor> \<le> round_half_even q"
  by (simp add: round_half_even_def Let_def)

lemma power_int_less_exp: "(2::rat) powi a < 2 powi b \<Longrightarrow> a < b"
  by (rule ccontr) (simp add: not_less power_int_increasing leD)

lemma binary64_exact:
  assumes x: "x = rat_of_int n * 2 powi e" and n: "\<bar>n\<bar> < 2 ^ 53" and e: "- 1074 \<le> e"
    and fin: "\<bar>x\<bar> < 2 ^ 1024"
  shows "binary64 x = Fin x"
proof (cases "x = 0")
  case True
  then show ?thesis by simp
next
  case False
  define a where "a = \<bar>x\<bar>"
  have apos: "0 < a" using False by (simp add: a_def)
  have a: "a = rat_of_int \<bar>n\<bar> * 2 powi e"
    by (simp add: a_def x abs_mult power_int_abs)
  define E where "E = max (floor_log2 a - 52) (- 1074)"
  note lb = floor_log2_bounds [OF apos]
  have "rat_of_int \<bar>n\<bar> < rat_of_int (2 ^ 53)"
    using n by (simp only: of_int_less_iff)
  then have "a < 2 ^ 53 * 2 powi e"
    unfolding a by (simp add: mult_strict_right_mono)
  also have "\<dots> = 2 powi (53 + e)"
    by (simp add: power_int_add)
  finally have "2 powi (floor_log2 a) < (2::rat) powi (53 + e)"
    using lb(1) by simp
  then have "floor_log2 a < 53 + e"
    by (rule power_int_less_exp)
  with e have Ee: "E \<le> e" by (simp add: E_def)
  define k where "k = \<bar>n\<bar> * 2 ^ nat (e - E)"
  have "2 powi e = (2::rat) powi (e - E) * 2 powi E"
    by (simp add: power_int_add [symmetric])
  also have "(2::rat) powi (e - E) = 2 ^ nat (e - E)"
    using Ee by (simp add: power_int_nonneg_exp)
  finally have ak: "a = rat_of_int k * 2 powi E"
    by (simp add: a k_def)
  then have q: "a / 2 powi E = rat_of_int k"
    by simp
  have m: "rat_of_int (round_half_even (a / 2 powi E)) * 2 powi E = a"
    by (simp add: q ak)
  have "sgn x * a = x"
    by (simp add: a_def sgn_mult_abs)
  then show ?thesis
    using False fin m
    by (simp add: binary64_def Let_def a_def [symmetric] E_def [symmetric])
qed

lemma binary64_overflow:
  assumes "2 ^ 1024 \<le> \<bar>x\<bar>"
  shows "binary64 x = inf_of_sign x"
proof -
  define a where "a = \<bar>x\<bar>"
  have big: "2 ^ 1024 \<le> a" using assms by (simp add: a_def)
  have "(0::rat) < 2 ^ 1024" by simp
  with big have apos: "0 < a" by linarith
  note lb = floor_log2_bounds [OF apos]
  define L where "L = floor_log2 a"
  have "(2::rat) powi 1024 < 2 powi (L + 1)"
    using big lb(2) by (simp add: L_def)
  then have L: "1024 \<le> L"
    using power_int_less_exp [of 1024 "L + 1"] by simp
  define E where "E = max (L - 52) (- 1074)"
  have E: "E = L - 52" using L by (simp add: E_def)
  have "(2::rat) powi L = 2 ^ 52 * 2 powi E"
    by (simp add: E power_int_diff)
  then have "(2::rat) ^ 52 \<le> a / 2 powi E"
    using lb(1) by (simp add: L_def [symmetric] pos_le_divide_eq)
  then have "rat_of_int (2 ^ 52) \<le> a / 2 powi E" by simp
  then have "2 ^ 52 \<le> \<lfloor>a / 2 powi E\<rfloor>"
    by (simp only: le_floor_iff)
  then have "2 ^ 52 \<le> round_half_even (a / 2 powi E)"
    using floor_le_round_half_even [of "a / 2 powi E"] by (rule order_trans)
  then have "rat_of_int (2 ^ 52) \<le> rat_of_int (round_half_even (a / 2 powi E))"
    by (simp only: of_int_le_iff)
  then have A: "2 ^ 52 * 2 powi E \<le> rat_of_int (round_half_even (a / 2 powi E)) * 2 powi E"
    by (simp add: mult_right_mono)
  have B: "(2::rat) ^ 1024 \<le> 2 ^ 52 * 2 powi E"
  proof -
    have "(2::rat) powi 1024 \<le> 2 powi L"
      using L by (intro power_int_increasing) simp_all
    also have "\<dots> = 2 ^ 52 * 2 powi E"
      by (simp add: E power_int_diff)
    finally show ?thesis by simp
  qed
  have "2 ^ 1024 \<le> rat_of_int (round_half_even (a / 2 powi E)) * 2 powi E"
    using B A by (rule order_trans)
  moreover have "x \<noteq> 0" using apos by (auto simp: a_def)
  ultimately show ?thesis
    by (simp add: binary64_def Let_def a_def [symmetric] L_def [symmetric] E_def [symmetric])
qed

lemma binary64_one [simp]: "binary64 1 = Fin 1"
  using binary64_exact [of 1 1 0] by simp

lemma binary64_hundred [simp]: "binary64 100 = Fin 100"
  using binary64_exact [of 100 100 0] by simp

lemma binary64_minus_one [simp]: "binary64 (- 1) = Fin (- 1)"
  using binary64_exact [of "- 1" "- 1" 0] by simp

lemma binary64_half [simp]: "binary64 (1 / 2) = Fin (1 / 2)"
  using binary64_exact [of "1 / 2" 1 "- 1"] by simp

lemma round_half_even_nonneg: "0 \<le> q \<Longrightarrow> 0 \<le> round_half_even q"
  by (simp add: round_half_even_def Let_def)

lemma scaled_nonneg:
  "0 \<le> x \<Longrightarrow> 0 \<le> rat_of_int (round_half_even (x / 2 powi e)) * 2 powi e"
proof -
  assume "0 \<le> x"
  then have "0 \<le> x / 2 powi e"
    by (simp add: zero_le_power_int)
  then have "0 \<le> round_half_even (x / 2 powi e)"
    by (rule round_half_even_nonneg)
  then show ?thesis
    by (simp add: zero_le_power_int)
qed

lemma binary64_of_nonneg:
  assumes "0 \<le> x"
  shows "binary64 x = PosInf \<or> (\<exists>y. binary64 x = Fin y \<and> 0 \<le> y)"
  using assms scaled_nonneg [OF assms, of "max (floor_log2 x - 52) (- 1074)"]
  by (simp add: binary64_def Let_def inf_of_sign_def)



section \<open>Monotone price sequences\<close>

lemma set_slice0: "set (slice0 xs e) \<subseteq> set xs"
  by (auto simp: slice0_def dest: in_set_takeD)

lemma sum_reduce_zero: "\<forall>l \<in> set xs. l = Fin 0 \<Longrightarrow> sum_reduce xs = Fin 0"
  unfolding sum_reduce_def by (induction xs) auto


text \<open>
  The smoothing loop keeps an average at zero as long as the entries it reads are zero.
\<close>

lemma smooth_step_zero:
  "1 \<le> period \<Longrightarrow>
   js_div (js_add (js_mul (Fin 0) (num (period - 1))) (Fin 0)) (num period) = Fin 0"
  by (simp add: num_def)

lemma smooth_zero_loss:
  "\<lbrakk>1 \<le> period; 0 \<le> i; length losses = length gains; \<forall>l \<in> set losses. l = Fin 0\<rbrakk>
   \<Longrightarrow> snd (smooth period gains losses i (avgGain, Fin 0)) = Fin 0"
proof (induction period gains losses i "(avgGain, Fin 0)" arbitrary: avgGain rule: smooth.induct)
  case (1 period gains losses i avgGain)
  show ?case
  proof (cases "i < int (length gains)")
    case False
    then show ?thesis by (simp add: smooth.simps)
  next
    case True
    with 1 have nth: "js_nth losses i = Fin 0"
      by (simp add: js_nth_def)
    have step: "js_div (js_add (js_mul (Fin 0) (num (period - 1))) (js_nth losses i)) (num period) = Fin 0"
      using 1(2) by (simp add: nth smooth_step_zero)
    show ?thesis
      using True 1 step by (subst smooth.simps) simp
  qed
qed


subsection \<open>Rising prices\<close>

lemma le_no_loss: "js_le a b \<Longrightarrow> loss_of (js_sub b a) = Fin 0"
proof (cases a; cases b)
  fix x y
  assume le: "js_le a b" and a: "a = Fin x" and b: "b = Fin y"
  then have "0 \<le> y + - x"
    by (auto simp: js_le_def js_eq_def)
  from binary64_of_nonneg [OF this] show ?thesis
    by (auto simp: a b js_sub_def loss_of_def)
qed (auto simp add: js_le_def js_eq_def js_sub_def loss_of_def)

lemma losses_zero:
  "successively js_le prices \<Longrightarrow> l \<in> set (map loss_of (differences prices)) \<Longrightarrow> l = Fin 0"
  by (induction prices rule: differences.induct) (auto simp: le_no_loss)

lemma averages_increasing:
  assumes "1 \<le> period" "successively js_le prices"
  shows "snd (averages prices period) = Fin 0"
proof -
  let ?losses = "map loss_of (differences prices)"
  have z: "\<forall>l \<in> set ?losses. l = Fin 0"
    using losses_zero [OF assms(2)] by blast
  then have "sum_reduce (slice0 ?losses period) = Fin 0"
    using set_slice0 [of ?losses period] by (intro sum_reduce_zero) blast
  then have init: "js_div (sum_reduce (slice0 ?losses period)) (num period) = Fin 0"
    using assms(1) by (simp add: num_def)
  show ?thesis
    unfolding averages_def Let_def init
    using assms(1) z by (intro smooth_zero_loss) simp_all
qed

text \<open>
  C5. On a price sequence of at least \<open>period + 1\<close> elements in which no price is below the
  one before it (so no difference is a loss), for a period of at least one, the final
  \<open>avgLoss\<close> is exactly zero, \<open>calculateRSI\<close> takes the branch \<open>avgLoss === 0\<close> and
  returns exactly 100, without dividing by \<open>avgLoss\<close>. The prices may be any numbers.
\<close>

theorem calculateRSI_increasing:
  assumes "1 \<le> period" and "period + 1 \<le> int (length prices)"
    and "successively js_le prices"
  shows "snd (averages prices period) = Fin 0
         \<and> js_eq (snd (averages prices period)) (Fin 0)
         \<and> calculateRSI prices period = Inr (Fin 100)"
proof -
  have "snd (averages prices period) = Fin 0"
    using assms(1,3) by (intro averages_increasing)
  then show ?thesis
    using assms(2) by (cases "averages prices period") (simp add: calculateRSI_def js_eq_def)
qed

theorem calculateRSI_increasing_witness:
  "(1::int) \<le> 2 \<and> 2 + 1 \<le> int (length [Fin 0, Fin 1, Fin 1, Fin 4])
   \<and> successively js_le [Fin 0, Fin 1, Fin 1, Fin 4]
   \<and> snd (averages [Fin 0, Fin 1, Fin 1, Fin 4] 2) = Fin 0
   \<and> calculateRSI [Fin 0, Fin 1, Fin 1, Fin 4] 2 = Inr (Fin 100)"
  using calculateRSI_increasing [of 2 "[Fin 0, Fin 1, Fin 1, Fin 4]"]
  by (simp add: js_le_def js_eq_def)

subsection \<open>Falling prices\<close>









text \<open>
  Falling prices whose first difference overflows: with the period 1 the loop multiplies
  the infinite \<open>avgLoss\<close> by \<open>period - 1 = 0\<close>, and the result is NaN.
\<close>

lemma js_div_NaN: "js_div a NaN = NaN"
  by (cases a) simp_all

lemma calculateRSI_first_difference_overflows:
  assumes "js_sub b a = NegInf"
  shows "calculateRSI [a, b, c] 1 = Inr NaN"
proof -
  have "snd (averages [a, b, c] 1) = NaN"
    using assms
    by (simp add: averages_def gain_of_def loss_of_def js_gt_def slice0_def sum_reduce_def
        num_def smooth.simps js_nth_def inf_of_sign_def)
  then show ?thesis
    by (cases "averages [a, b, c] 1") (simp add: calculateRSI_def js_eq_def js_sub_def js_div_NaN)
qed

lemma calculateRSI_overflow:
  "calculateRSI [Fin (2 ^ 1023), Fin (- (2 ^ 1023)), Fin (- (3 * 2 ^ 1022))] 1 = Inr NaN"
proof -
  have "(2::rat) ^ 1024 \<le> \<bar>- (2 ^ 1023) + - (2 ^ 1023)\<bar>"
    by simp
  from binary64_overflow [OF this]
  have "js_sub (Fin (- (2 ^ 1023))) (Fin (2 ^ 1023)) = NegInf"
    by (simp add: js_sub_def inf_of_sign_def)
  then show ?thesis
    by (rule calculateRSI_first_difference_overflows)
qed

section \<open>The reference price of a reading\<close>

lemma calculateRSI_returns:
  "period + 1 \<le> int (length prices) \<Longrightarrow> \<exists>v. calculateRSI prices period = Inr v"
  by (simp add: calculateRSI_def Let_def split: prod.split)

lemma getCurrentRSI_Inr:
  "getCurrentRSI parseFloat (Inr klines) now = Inr reading \<Longrightarrow>
   RSI_PERIOD + 1 \<le> int (length klines) \<and>
   price reading = parseFloat (close (last klines))"
  by (auto simp add: getCurrentRSI_def Let_def calculateRSI_def js_nth_def RSI_PERIOD_def
      last_conv_nth nat_diff_distrib split: sum.splits if_splits)

text \<open>
  C10. Whenever \<open>getCurrentRSI\<close> produces a reading from a fetched series of candles, the
  series is not empty and the price of the reading is \<open>parseFloat\<close> of the \<open>close\<close> field
  of its last candle; and it produces a reading exactly when the series has at least
  \<open>RSI_PERIOD + 1\<close> candles (on a shorter series \<open>calculateRSI\<close> throws and the cycle has
  no reading).
\<close>

theorem getCurrentRSI_price:
  "(\<forall>reading. getCurrentRSI parseFloat (Inr klines) now = Inr reading \<longrightarrow>
      klines \<noteq> [] \<and> price reading = parseFloat (close (last klines)))
   \<and> ((\<exists>reading. getCurrentRSI parseFloat (Inr klines) now = Inr reading)
        \<longleftrightarrow> RSI_PERIOD + 1 \<le> int (length klines))"
proof -
  have a: "\<forall>reading. getCurrentRSI parseFloat (Inr klines) now = Inr reading \<longrightarrow>
      klines \<noteq> [] \<and> price reading = parseFloat (close (last klines))"
    using getCurrentRSI_Inr [of parseFloat klines now] by (auto simp: RSI_PERIOD_def)
  have b: "RSI_PERIOD + 1 \<le> int (length klines) \<Longrightarrow>
      \<exists>reading. getCurrentRSI parseFloat (Inr klines) now = Inr reading"
    using calculateRSI_returns [of RSI_PERIOD "map (\<lambda>kline. parseFloat (close kline)) klines"]
    by (auto simp add: getCurrentRSI_def Let_def)
  show ?thesis
    using a b getCurrentRSI_Inr [of parseFloat klines now] by blast
qed

theorem getCurrentRSI_price_witness:
  "getCurrentRSI length_as_number (Inr (replicate 15 sample_kline)) 7 =
     Inr \<lparr>rsi_value = Fin 100, timestamp = 7, price = Fin 2\<rparr>
   \<and> replicate 15 sample_kline \<noteq> []
   \<and> price \<lparr>rsi_value = Fin 100, timestamp = 7, price = Fin 2\<rparr>
       = length_as_number (close (last (replicate 15 sample_kline)))
   \<and> RSI_PERIOD + 1 \<le> int (length (replicate 15 sample_kline))"
proof -
  have e: "getCurrentRSI length_as_number (Inr (replicate 15 sample_kline)) 7 =
     Inr \<lparr>rsi_value = Fin 100, timestamp = 7, price = Fin 2\<rparr>"
    by code_simp
  show ?thesis
    using getCurrentRSI_price [of length_as_number "replicate 15 sample_kline" 7] e
    by (simp add: RSI_PERIOD_def)
qed

section \<open>The alert policy\<close>

text \<open>
  C1. \<open>shouldSendAlert\<close> is true exactly when the alerts are enabled, at least 300000 ms
  lie between \<open>lastAlertTime\<close> and the current time, and the value of the reading is at
  most the oversold threshold or at least the overbought threshold, in the comparisons of
  JavaScript; on a finite value these are the comparisons \<open>\<le>\<close> and \<open>\<ge>\<close> of numbers, both
  inclusive.
\<close>

theorem shouldSendAlert_iff:
  "shouldSendAlert userConfig rsiData now =
     (alertsEnabled userConfig
      \<and> 300000 \<le> now - lastAlertTime userConfig
      \<and> (js_le (rsi_value rsiData) (num (oversold (rsiThresholds userConfig)))
         \<or> js_ge (rsi_value rsiData) (num (overbought (rsiThresholds userConfig)))))
   \<and> js_le (Fin v) (num t) = (v \<le> of_int t)
   \<and> js_ge (Fin v) (num t) = (of_int t \<le> v)"
  by (auto simp add: shouldSendAlert_def ALERT_COOLDOWN_def Let_def js_le_def js_ge_def
      js_eq_def num_def)

section \<open>Registration\<close>

text \<open>
  C8. The start command sets the configuration of its chat to the defaults (oversold 30,
  overbought 70, alerts enabled, last alert time 0, no channels), whatever the
  configuration was before and whether or not the welcome message is delivered, and leaves
  the other entries as they are; a second start command leaves the registry as the first
  one made it.
\<close>

theorem on_start_resets:
  "userConfigs (on_start net chat st) chat =
     Some \<lparr>chatId = chat, rsiThresholds = \<lparr>oversold = 30, overbought = 70\<rparr>,
           alertsEnabled = True, lastAlertTime = 0, channels = []\<rparr>
   \<and> userConfigs (on_start net chat st) =
     (userConfigs st)(chat \<mapsto>
        \<lparr>chatId = chat, rsiThresholds = \<lparr>oversold = 30, overbought = 70\<rparr>,
         alertsEnabled = True, lastAlertTime = 0, channels = []\<rparr>)
   \<and> userConfigs (on_start net' chat (on_start net chat st)) = userConfigs (on_start net chat st)"
  by (simp add: on_start_def send_quietly_def sendMessage_def Let_def)

section \<open>The formats of a channel\<close>

lemma in_class_Digit [simp]: "in_class Digit = digit_char"
  by (rule ext) simp

lemma in_class_Word [simp]: "in_class Word = word_char"
  by (rule ext) simp

lemma username_iff: "matches username_pattern s = handle_format s"
proof (cases s)
  case Nil
  then show ?thesis by (simp add: username_pattern_def handle_format_def)
next
  case (Cons c rest)
  have "list_ex (\<lambda>k. list_all word_char (take k rest) \<and> drop k rest = []) [1..<Suc (length rest)]
        = (rest \<noteq> [] \<and> list_all word_char rest)"
    by (cases rest) (auto simp: list_ex_iff intro!: bexI [of _ "length rest"])
  with Cons show ?thesis
    by (simp add: username_pattern_def handle_format_def)
qed

lemma chat_id_iff: "matches chat_id_pattern s = numeric_id_format s"
proof -
  consider "length s < 4" | c1 c2 c3 c4 rest where "s = c1 # c2 # c3 # c4 # rest"
    by (cases s; simp; rename_tac s1; case_tac s1; simp; rename_tac s2; case_tac s2; simp; rename_tac s3; case_tac s3; simp)
  then show ?thesis
  proof cases
    case 1
    then show ?thesis
      by (cases s; simp add: chat_id_pattern_def numeric_id_format_def;
          rename_tac s1; case_tac s1; simp; rename_tac s2; case_tac s2; simp; rename_tac s3; case_tac s3; simp)
  next
    case 2
    then show ?thesis
      by (auto simp add: chat_id_pattern_def numeric_id_format_def)
  qed
qed


lemma format_examples:
  "matches username_pattern ''@abc123'' \<and> matches chat_id_pattern ''-1001234567890''
   \<and> \<not> matches username_pattern ''abc123'' \<and> \<not> matches chat_id_pattern ''abc123''
   \<and> \<not> matches username_pattern ''-100123'' \<and> \<not> matches chat_id_pattern ''-100123''"
  by code_simp

lemma userConfigs_sendMessage [simp]:
  "userConfigs (snd (sendMessage net to body st)) = userConfigs st"
  by (simp add: sendMessage_def Let_def)

lemma userConfigs_send_quietly [simp]:
  "userConfigs (send_quietly net to body st) = userConfigs st"
  by (simp add: send_quietly_def)

text \<open>
  C9. The format check of the add-channel command accepts a string exactly when it is
  \<open>@\<close> followed by one or more word characters, or \<open>-100\<close> followed by exactly ten digits.
  For a registered chat the handler sends the invalid-format reply and returns, with the
  registry as it was, exactly on the strings of neither form; on a string of one of the
  forms it goes on to the duplicate check and, for a channel not yet in the list, sends
  the test message to the channel. \<open>@abc123\<close> and \<open>-1001234567890\<close> are accepted;
  \<open>abc123\<close> and \<open>-100123\<close> are rejected.
\<close>

theorem channel_format_validation:
  "(matches username_pattern s \<or> matches chat_id_pattern s) = (handle_format s \<or> numeric_id_format s)
   \<and> (userConfigs st chat = Some userConfig \<longrightarrow>
        add_channel_begin net chat s st =
          (if \<not> (handle_format s \<or> numeric_id_format s)
           then (send_quietly net (Chat chat) InvalidFormat st, None)
           else if s \<in> set (channels userConfig)
           then (send_quietly net (Chat chat) (AlreadyListed s) st, None)
           else (snd (sendMessage net (Channel s) (TestMessage (handle_format s) s) st),
                 Some \<lparr>handler_chat = chat, handler_input = s,
                       handler_isUsername = handle_format s, waits_at = Probe,
                       settled = fst (sendMessage net (Channel s) (TestMessage (handle_format s) s) st),
                       holds_entry = True\<rparr>)))
   \<and> (\<not> (handle_format s \<or> numeric_id_format s) \<longrightarrow>
        userConfigs (fst (add_channel_begin net chat s st)) = userConfigs st
        \<and> snd (add_channel_begin net chat s st) = None)
   \<and> matches username_pattern ''@abc123'' \<and> matches chat_id_pattern ''-1001234567890''
   \<and> \<not> (matches username_pattern ''abc123'' \<or> matches chat_id_pattern ''abc123'')
   \<and> \<not> (matches username_pattern ''-100123'' \<or> matches chat_id_pattern ''-100123'')"
  using format_examples
  by (auto simp add: username_iff chat_id_iff add_channel_begin_def Let_def
      split: option.splits prod.splits)

theorem channel_format_validation_witness:
  "userConfigs two_channel_state 5 = Some two_channel_config
   \<and> \<not> (handle_format ''abc123'' \<or> numeric_id_format ''abc123'')
   \<and> add_channel_begin always_delivered 5 ''abc123'' two_channel_state =
       (two_channel_state\<lparr>sends := [(Chat 5, InvalidFormat, True)]\<rparr>, None)
   \<and> (handle_format ''@abc123'' \<or> numeric_id_format ''@abc123'')
   \<and> ''@abc123'' \<notin> set (channels two_channel_config)
   \<and> add_channel_begin always_delivered 5 ''@abc123'' two_channel_state =
       (two_channel_state\<lparr>sends := [(Channel ''@abc123'', TestMessage True ''@abc123'', True)]\<rparr>,
        Some \<lparr>handler_chat = 5, handler_input = ''@abc123'', handler_isUsername = True,
              waits_at = Probe, settled = True, holds_entry = True\<rparr>)"
  using channel_format_validation [of "''abc123''" two_channel_state 5 two_channel_config always_delivered]
    channel_format_validation [of "''@abc123''" two_channel_state 5 two_channel_config always_delivered]
  by (simp add: send_quietly_def sendMessage_def handle_format_def numeric_id_format_def
      two_channel_state_def two_channel_config_def always_delivered_def word_char_def)

section \<open>The channels of a reachable registry\<close>

lemma awaited_channels_Nil [simp]: "awaited_channels chat [] = []"
  by (simp add: awaited_channels_def)

lemma awaited_channels_append [simp]:
  "awaited_channels chat (xs @ ys) = awaited_channels chat xs @ awaited_channels chat ys"
  by (simp add: awaited_channels_def)

lemma awaited_channels_Cons:
  "awaited_channels chat (h # hs) =
     (if handler_chat h = chat \<and> waits_at h = Probe \<and> holds_entry h
      then handler_input h # awaited_channels chat hs else awaited_channels chat hs)"
  by (simp add: awaited_channels_def)

lemma awaited_channels_lose_entry:
  "awaited_channels c (map (lose_entry chat) hs) = (if c = chat then [] else awaited_channels c hs)"
  by (induction hs) (auto simp: awaited_channels_Cons lose_entry_def)

lemma awaited_channels_nth:
  assumes "i < length hs"
  shows "awaited_channels c hs =
           awaited_channels c (take i hs) @ awaited_channels c [hs ! i]
           @ awaited_channels c (drop (Suc i) hs)"
    and "awaited_channels c (hs[i := h]) =
           awaited_channels c (take i hs) @ awaited_channels c [h]
           @ awaited_channels c (drop (Suc i) hs)"
proof -
  have "hs = take i hs @ [hs ! i] @ drop (Suc i) hs"
    using assms by (simp add: id_take_nth_drop [symmetric])
  then have "awaited_channels c hs = awaited_channels c (take i hs @ [hs ! i] @ drop (Suc i) hs)"
    by simp
  then show "awaited_channels c hs =
           awaited_channels c (take i hs) @ awaited_channels c [hs ! i]
           @ awaited_channels c (drop (Suc i) hs)"
    by (simp only: awaited_channels_append)
  have "hs[i := h] = take i hs @ [h] @ drop (Suc i) hs"
    using assms by (simp add: upd_conv_take_nth_drop)
  then show "awaited_channels c (hs[i := h]) =
           awaited_channels c (take i hs) @ awaited_channels c [h]
           @ awaited_channels c (drop (Suc i) hs)"
    by (simp only: awaited_channels_append)
qed

lemma bot_ok_initial: "bot_ok (initial, [])"
  by (simp add: bot_ok_def initial_def)

lemma bot_ok_on_start: "bot_ok (st, hs) \<Longrightarrow> bot_ok (on_start net chat st, map (lose_entry chat) hs)"
  by (auto simp add: bot_ok_def on_start_def awaited_channels_lose_entry lose_entry_def)

lemma bot_ok_on_set_oversold: "bot_ok (st, hs) \<Longrightarrow> bot_ok (on_set_oversold net chat v st, hs)"
  by (auto simp add: on_set_oversold_def bot_ok_def split: option.splits)

lemma bot_ok_on_set_overbought: "bot_ok (st, hs) \<Longrightarrow> bot_ok (on_set_overbought net chat v st, hs)"
  by (auto simp add: on_set_overbought_def bot_ok_def split: option.splits)

lemma bot_ok_on_toggle: "bot_ok (st, hs) \<Longrightarrow> bot_ok (on_toggle net chat st, hs)"
  by (auto simp add: on_toggle_def bot_ok_def split: option.splits)

lemma bot_ok_on_remove_channel:
  "bot_ok (st, hs) \<Longrightarrow> bot_ok (on_remove_channel net chat channelInput st, hs)"
  by (auto simp add: on_remove_channel_def bot_ok_def list_all_iff
      split: option.splits dest: notin_set_remove1)

lemma bot_ok_add_channel_begin:
  assumes "bot_ok (st, hs)" and "channelInput \<notin> set (awaited_channels chat hs)"
  shows "bot_ok (step net (Command chat (AddChannel channelInput)) (st, hs))"
proof (cases "userConfigs st chat")
  case None
  then show ?thesis
    using assms(1) by (simp add: add_channel_begin_def bot_ok_def)
next
  case (Some userConfig)
  show ?thesis
    using assms Some
    by (auto simp add: add_channel_begin_def bot_ok_def Let_def sendMessage_def
        awaited_channels_Cons valid_format_def)
qed

lemma userConfigs_push_channel:
  "userConfigs (push_channel h st) =
     (case userConfigs st (handler_chat h) of
        None \<Rightarrow> userConfigs st
      | Some userConfig \<Rightarrow>
          if holds_entry h
          then (userConfigs st)(handler_chat h \<mapsto>
                 userConfig\<lparr>channels := channels userConfig @ [handler_input h]\<rparr>)
          else userConfigs st)"
  by (simp add: push_channel_def split: option.splits)

lemma userConfigs_add_channel_resume:
  "userConfigs (fst (add_channel_resume net h st)) =
     (if waits_at h = Probe \<and> settled h then userConfigs (push_channel h st) else userConfigs st)"
  by (cases "waits_at h")
     (auto simp add: add_channel_resume_def sendMessage_def Let_def)

lemma snd_add_channel_resume:
  "snd (add_channel_resume net h st) =
     (case waits_at h of
        Probe \<Rightarrow> if settled h
                 then h\<lparr>waits_at := Confirmation,
                        settled := net (length (sends (push_channel h st))) (Chat (handler_chat h))
                                     (Added (handler_isUsername h) (handler_input h))\<rparr>
                 else h\<lparr>waits_at := Finished\<rparr>
      | Confirmation \<Rightarrow> h\<lparr>waits_at := Finished\<rparr>
      | Finished \<Rightarrow> h)"
  by (cases "waits_at h")
     (auto simp add: add_channel_resume_def sendMessage_def Let_def)

lemma awaited_channels_resumed:
  "awaited_channels c [snd (add_channel_resume net h st)] =
     (if waits_at h = Probe then [] else awaited_channels c [h])"
  by (cases "waits_at h") (auto simp add: snd_add_channel_resume awaited_channels_Cons)

lemma bot_ok_resume:
  assumes ok: "bot_ok (st, hs)"
  shows "bot_ok (step net (Resume i) (st, hs))"
proof (cases "i < length hs")
  case False
  then show ?thesis using ok by simp
next
  case True
  define h where "h = hs ! i"
  define h' where "h' = snd (add_channel_resume net h st)"
  define st' where "st' = fst (add_channel_resume net h st)"
  have stp: "step net (Resume i) (st, hs) = (st', hs[i := h'])"
    using True by (simp add: h_def h'_def st'_def split: prod.splits)
  have hin: "h \<in> set hs"
    using True by (simp add: h_def)
  note dec = awaited_channels_nth [OF True, folded h_def]
  have valid_h: "valid_format (handler_input h)" if "waits_at h = Probe"
    using ok hin that by (auto simp: bot_ok_def)
  have handlers: "\<forall>k \<in> set (hs[i := h']). waits_at k = Probe \<longrightarrow> valid_format (handler_input k)"
  proof
    fix k assume "k \<in> set (hs[i := h'])"
    then have "k = h' \<or> k \<in> set hs"
      using set_update_subset_insert [of hs i h'] by auto
    moreover have "waits_at h' \<noteq> Probe"
      by (cases "waits_at h") (auto simp: h'_def snd_add_channel_resume)
    ultimately show "waits_at k = Probe \<longrightarrow> valid_format (handler_input k)"
      using ok by (auto simp: bot_ok_def)
  qed
  have entries: "distinct (channels userConfig @ awaited_channels chat (hs[i := h']))
                 \<and> list_all valid_format (channels userConfig)"
    if e: "userConfigs st' chat = Some userConfig" for chat userConfig
  proof (cases "waits_at h = Probe \<and> settled h \<and> holds_entry h \<and> handler_chat h = chat")
    case push: True
    then obtain old where old: "userConfigs st chat = Some old"
      and new: "userConfig = old\<lparr>channels := channels old @ [handler_input h]\<rparr>"
      using e
      by (auto simp add: st'_def userConfigs_add_channel_resume userConfigs_push_channel
          split: option.splits)
    from ok old have d: "distinct (channels old @ awaited_channels chat hs)"
      and v: "list_all valid_format (channels old)"
      by (auto simp: bot_ok_def)
    have here: "awaited_channels chat [h] = [handler_input h]"
      using push by (simp add: awaited_channels_Cons)
    have gone: "awaited_channels chat [h'] = []"
      using push by (simp add: h'_def awaited_channels_resumed)
    show ?thesis
      using d v valid_h push
      by (auto simp add: new dec(1) [of chat] dec(2) [of chat h'] here gone)
  next
    case keep: False
    have same: "userConfigs st' chat = userConfigs st chat"
      using keep
      by (auto simp add: st'_def userConfigs_add_channel_resume userConfigs_push_channel
          split: option.splits)
    with e ok have d: "distinct (channels userConfig @ awaited_channels chat hs)"
      and v: "list_all valid_format (channels userConfig)"
      by (auto simp: bot_ok_def)
    have r: "awaited_channels chat [h'] =
               (if waits_at h = Probe then [] else awaited_channels chat [h])"
      by (simp only: h'_def awaited_channels_resumed)
    show ?thesis
      using d v by (auto simp add: dec(1) [of chat] dec(2) [of chat h'] r)
  qed
  show ?thesis
    unfolding stp using handlers entries by (simp add: bot_ok_def)
qed

lemma bot_ok_step:
  assumes "bot_ok sys" and "\<not> overlaps event sys"
  shows "bot_ok (step net event sys)"
proof -
  obtain st hs where sys: "sys = (st, hs)" by (cases sys)
  show ?thesis
  proof (cases event)
    case (Resume i)
    then show ?thesis
      using assms(1) by (simp only: sys bot_ok_resume)
  next
    case (Command chat cmd)
    show ?thesis
    proof (cases cmd)
      case (AddChannel channelInput)
      then show ?thesis
        using assms unfolding sys Command AddChannel
        by (intro bot_ok_add_channel_begin) simp_all
    qed (use assms(1) in \<open>simp_all add: sys Command bot_ok_on_start bot_ok_on_set_oversold
           bot_ok_on_set_overbought bot_ok_on_remove_channel bot_ok_on_toggle\<close>)
  qed
qed

lemma bot_ok_run:
  "bot_ok sys \<Longrightarrow> no_overlap net events sys \<Longrightarrow> bot_ok (run net events sys)"
  unfolding run_def
  by (induction events arbitrary: sys) (simp_all add: bot_ok_step)

text \<open>
  C7, as the code has it. Take any interleaving of start, threshold, toggle, add-channel
  and remove-channel handlers from the empty registry, under any outcomes of the sends, in
  which no add-channel command arrives while an earlier add-channel handler of the same
  chat for the same channel still waits for its test message. In the state it reaches the
  channels of every entry are pairwise different. There the add-channel handler, for a
  channel already in the list, sends the already-listed reply and returns with the
  registry unchanged; for a well-formed channel not in the list it sends the test message
  and waits; and once the test message has settled it appends the channel at the end of
  the list when the message was delivered and the handler still holds the entry, and
  leaves the registry unchanged otherwise.
\<close>

theorem channels_distinct:
  assumes "no_overlap net events (initial, [])"
    and "run net events (initial, []) = (st, hs)"
    and "userConfigs st chat = Some userConfig"
  shows "distinct (channels userConfig)
    \<and> (channelInput \<in> set (channels userConfig) \<longrightarrow>
         add_channel_begin net' chat channelInput st
           = (send_quietly net' (Chat chat) (AlreadyListed channelInput) st, None)
         \<and> userConfigs (fst (add_channel_begin net' chat channelInput st)) = userConfigs st)
    \<and> (channelInput \<notin> set (channels userConfig) \<and> valid_format channelInput \<longrightarrow>
         add_channel_begin net' chat channelInput st
           = (snd (sendMessage net' (Channel channelInput)
                     (TestMessage (matches username_pattern channelInput) channelInput) st),
              Some \<lparr>handler_chat = chat, handler_input = channelInput,
                    handler_isUsername = matches username_pattern channelInput,
                    waits_at = Probe,
                    settled = net' (length (sends st)) (Channel channelInput)
                                (TestMessage (matches username_pattern channelInput) channelInput),
                    holds_entry = True\<rparr>))
    \<and> (handler_chat h = chat \<and> waits_at h = Probe \<longrightarrow>
         userConfigs (fst (add_channel_resume net' h st)) =
           (if settled h \<and> holds_entry h
            then (userConfigs st)(chat \<mapsto>
                   userConfig\<lparr>channels := channels userConfig @ [handler_input h]\<rparr>)
            else userConfigs st))"
proof -
  have "bot_ok (run net events (initial, []))"
    using assms(1) by (intro bot_ok_run bot_ok_initial)
  with assms(2,3) have d: "distinct (channels userConfig)"
    and v: "list_all valid_format (channels userConfig)"
    by (auto simp: bot_ok_def)
  have present: "add_channel_begin net' chat channelInput st
           = (send_quietly net' (Chat chat) (AlreadyListed channelInput) st, None)"
    if "channelInput \<in> set (channels userConfig)"
    using that v assms(3)
    by (auto simp add: add_channel_begin_def Let_def list_all_iff valid_format_def)
  have absent: "add_channel_begin net' chat channelInput st
           = (snd (sendMessage net' (Channel channelInput)
                     (TestMessage (matches username_pattern channelInput) channelInput) st),
              Some \<lparr>handler_chat = chat, handler_input = channelInput,
                    handler_isUsername = matches username_pattern channelInput,
                    waits_at = Probe,
                    settled = net' (length (sends st)) (Channel channelInput)
                                (TestMessage (matches username_pattern channelInput) channelInput),
                    holds_entry = True\<rparr>)"
    if "channelInput \<notin> set (channels userConfig)" "valid_format channelInput"
    using that assms(3)
    by (auto simp add: add_channel_begin_def Let_def valid_format_def sendMessage_def)
  have resume: "userConfigs (fst (add_channel_resume net' h st)) =
           (if settled h \<and> holds_entry h
            then (userConfigs st)(chat \<mapsto>
                   userConfig\<lparr>channels := channels userConfig @ [handler_input h]\<rparr>)
            else userConfigs st)"
    if "handler_chat h = chat" "waits_at h = Probe"
    using that assms(3)
    by (simp add: userConfigs_add_channel_resume userConfigs_push_channel)
  show ?thesis
    using d present absent resume by auto
qed

lemmas run_simps =
  run_def on_start_def add_channel_begin_def add_channel_resume_def push_channel_def
  send_quietly_def sendMessage_def initial_def lose_entry_def awaited_channels_def

lemma matches_abc: "matches username_pattern ''@abc''"
  by code_simp

lemma matches_chat_id: "matches chat_id_pattern ''-1001234567890''"
  by code_simp

lemma no_match_chat_id: "\<not> matches username_pattern ''-1001234567890''"
  by code_simp

lemma run_abc_events: "run always_delivered abc_events (initial, []) = (abc_state, [abc_handler])"
  by (simp add: run_simps abc_events_def abc_state_def abc_config_def abc_handler_def
      always_delivered_def matches_abc)

lemma no_overlap_abc_events: "no_overlap always_delivered abc_events (initial, [])"
  by (simp add: run_simps abc_events_def always_delivered_def matches_abc)

theorem channels_distinct_witness:
  "no_overlap always_delivered abc_events (initial, [])
   \<and> run always_delivered abc_events (initial, []) = (abc_state, [abc_handler])
   \<and> userConfigs abc_state 1 = Some abc_config
   \<and> distinct (channels abc_config)
   \<and> ''@abc'' \<in> set (channels abc_config)
   \<and> add_channel_begin always_delivered 1 ''@abc'' abc_state =
       (abc_state\<lparr>sends := sends abc_state @ [(Chat 1, AlreadyListed ''@abc'', True)]\<rparr>, None)
   \<and> ''-1001234567890'' \<notin> set (channels abc_config)
   \<and> valid_format ''-1001234567890''
   \<and> add_channel_begin always_delivered 1 ''-1001234567890'' abc_state =
       (abc_state\<lparr>sends := sends abc_state
           @ [(Channel ''-1001234567890'', TestMessage False ''-1001234567890'', True)]\<rparr>,
        Some waiting_handler)
   \<and> handler_chat waiting_handler = 1 \<and> waits_at waiting_handler = Probe
   \<and> userConfigs (fst (add_channel_resume always_delivered waiting_handler abc_state)) =
       [1 \<mapsto> abc_config\<lparr>channels := [''@abc'', ''-1001234567890'']\<rparr>]"
proof -
  have e: "userConfigs abc_state 1 = Some abc_config"
    by (simp add: abc_state_def)
  show ?thesis
    using channels_distinct [OF no_overlap_abc_events run_abc_events e,
        of "''@abc''" always_delivered waiting_handler]
      channels_distinct [OF no_overlap_abc_events run_abc_events e,
        of "''-1001234567890''" always_delivered waiting_handler]
    by (simp add: no_overlap_abc_events run_abc_events send_quietly_def sendMessage_def
        always_delivered_def valid_format_def matches_chat_id no_match_chat_id
        waiting_handler_def abc_state_def abc_config_def)
qed

text \<open>
  A channel that is not in the list and is not appended: chat 1 registers and sends
  \<open>/add_channel @abc\<close>; the input is well-formed and the list is empty, the test message
  to the channel is rejected, and the handler sends the add-failed reply and returns with
  the list still empty.
\<close>

theorem add_channel_not_appended:
  "matches username_pattern ''@abc''
   \<and> userConfigs (fst (run first_send_only [Command 1 Start] (initial, []))) 1 =
       Some \<lparr>chatId = 1, rsiThresholds = \<lparr>oversold = 30, overbought = 70\<rparr>,
             alertsEnabled = True, lastAlertTime = 0, channels = []\<rparr>
   \<and> run first_send_only [Command 1 Start, Command 1 (AddChannel ''@abc''), Resume 0] (initial, []) =
       (\<lparr>userConfigs = [1 \<mapsto> \<lparr>chatId = 1, rsiThresholds = \<lparr>oversold = 30, overbought = 70\<rparr>,
                          alertsEnabled = True, lastAlertTime = 0, channels = []\<rparr>],
         sends = [(Chat 1, Welcome, True), (Channel ''@abc'', TestMessage True ''@abc'', False),
                  (Chat 1, AddFailed True ''@abc'', False)]\<rparr>,
        [\<lparr>handler_chat = 1, handler_input = ''@abc'', handler_isUsername = True,
          waits_at = Finished, settled = False, holds_entry = True\<rparr>])"
  by (simp add: run_simps first_send_only_def matches_abc)

text \<open>
  Two add-channel handlers of one chat for one channel, both past the duplicate check
  before either pushes: the commands overlap, and the list ends with the channel twice.
\<close>

lemma overlapping_add_channel_duplicates:
  "\<not> no_overlap always_delivered overlapping_events (initial, [])
   \<and> userConfigs (fst (run always_delivered overlapping_events (initial, []))) 1 =
       Some \<lparr>chatId = 1, rsiThresholds = \<lparr>oversold = 30, overbought = 70\<rparr>,
             alertsEnabled = True, lastAlertTime = 0, channels = [''@abc'', ''@abc'']\<rparr>"
  by (simp add: run_simps overlapping_events_def always_delivered_def matches_abc)

section \<open>The dispatch of an alert\<close>

text \<open>
  When the alert to the chat is rejected, the dispatch ends there: one attempt is recorded
  and the registry is as before.
\<close>

lemma sendRSIAlert_primary_failure:
  assumes "\<not> net (length (sends st)) (Chat chat)
             (Alert (js_le (rsi_value rsiData) (num (oversold (rsiThresholds userConfig)))) rsiData)"
  shows "sendRSIAlert net chat rsiData userConfig finished st =
         st\<lparr>sends := sends st @ [(Chat chat,
              Alert (js_le (rsi_value rsiData) (num (oversold (rsiThresholds userConfig)))) rsiData,
              False)]\<rparr>"
  using assms by (simp add: sendRSIAlert_def sendMessage_def Let_def)

lemma channels_tried_append [simp]: "channels_tried (xs @ ys) = channels_tried xs @ channels_tried ys"
  by (induction xs rule: channels_tried.induct) auto

lemma channels_failed_append [simp]: "channels_failed (xs @ ys) = channels_failed xs @ channels_failed ys"
  by (induction xs rule: channels_failed.induct) auto

lemma warnings_delivered_append [simp]:
  "warnings_delivered chat (xs @ ys) = warnings_delivered chat xs @ warnings_delivered chat ys"
  by (induction chat xs rule: warnings_delivered.induct) auto

text \<open>
  When every warning to the chat is delivered, the loop reaches its end: every channel of
  the list is sent to once, in order, and the chat receives one warning for each channel
  whose send was rejected.
\<close>

lemma send_to_channels_complete:
  assumes "\<forall>n channel. net n (Chat chat) (ChannelWarning channel)"
  shows "\<exists>new. send_to_channels net chat message chs st = (True, st\<lparr>sends := sends st @ new\<rparr>)
           \<and> channels_tried new = chs
           \<and> warnings_delivered chat new = channels_failed new"
proof (induction chs arbitrary: st)
  case Nil
  show ?case by (intro exI [of _ "[]"]) simp
next
  case (Cons channel rest)
  let ?ok = "net (length (sends st)) (Channel channel) message"
  let ?st1 = "st\<lparr>sends := sends st @ [(Channel channel, message, ?ok)]\<rparr>"
  show ?case
  proof (cases ?ok)
    case True
    from Cons [of ?st1] obtain new where
      new: "send_to_channels net chat message rest ?st1 = (True, ?st1\<lparr>sends := sends ?st1 @ new\<rparr>)"
        "channels_tried new = rest" "warnings_delivered chat new = channels_failed new"
      by blast
    show ?thesis
      using True new
      by (intro exI [of _ "(Channel channel, message, True) # new"])
         (simp add: sendMessage_def Let_def)
  next
    case False
    let ?st2 = "?st1\<lparr>sends := sends ?st1 @ [(Chat chat, ChannelWarning channel, True)]\<rparr>"
    from Cons [of ?st2] obtain new where
      new: "send_to_channels net chat message rest ?st2 = (True, ?st2\<lparr>sends := sends ?st2 @ new\<rparr>)"
        "channels_tried new = rest" "warnings_delivered chat new = channels_failed new"
      by blast
    show ?thesis
      using False new assms
      by (intro exI [of _ "(Channel channel, message, False) # (Chat chat, ChannelWarning channel, True) # new"])
         (simp add: sendMessage_def Let_def)
  qed
qed

text \<open>
  Then a dispatch whose alert reaches a registered chat sets \<open>lastAlertTime\<close> of the
  chat to the current time, whatever the outcomes of the sends to the channels.
\<close>

lemma sendRSIAlert_completes:
  assumes "net (length (sends st)) (Chat chat)
             (Alert (js_le (rsi_value rsiData) (num (oversold (rsiThresholds userConfig)))) rsiData)"
    and "\<forall>n channel. net n (Chat chat) (ChannelWarning channel)"
    and "userConfigs st chat = Some current"
  shows "\<exists>new. sendRSIAlert net chat rsiData userConfig finished st =
           st\<lparr>sends := sends st @ new,
              userConfigs := (userConfigs st)(chat \<mapsto> current\<lparr>lastAlertTime := finished\<rparr>)\<rparr>
         \<and> channels_tried new = channels userConfig
         \<and> warnings_delivered chat new = channels_failed new"
proof -
  let ?m = "Alert (js_le (rsi_value rsiData) (num (oversold (rsiThresholds userConfig)))) rsiData"
  let ?st1 = "st\<lparr>sends := sends st @ [(Chat chat, ?m, True)]\<rparr>"
  from assms(2) send_to_channels_complete [of net chat ?m "channels userConfig" ?st1]
  obtain new where
    new: "send_to_channels net chat ?m (channels userConfig) ?st1 = (True, ?st1\<lparr>sends := sends ?st1 @ new\<rparr>)"
      "channels_tried new = channels userConfig" "warnings_delivered chat new = channels_failed new"
    by blast
  show ?thesis
    using assms(1,3) new
    by (intro exI [of _ "(Chat chat, ?m, True) # new"])
       (simp add: sendRSIAlert_def sendMessage_def Let_def)
qed

text \<open>A dispatch leaves the channels of every entry as they are.\<close>

lemma userConfigs_send_to_channels:
  "userConfigs (snd (send_to_channels net chat message chs st)) = userConfigs st"
proof (induction chs arbitrary: st)
  case Nil
  show ?case by simp
next
  case (Cons channel rest)
  let ?st1 = "snd (sendMessage net (Channel channel) message st)"
  let ?st2 = "snd (sendMessage net (Chat chat) (ChannelWarning channel) ?st1)"
  show ?case
    using Cons [of ?st1] Cons [of ?st2]
    by (auto simp add: sendMessage_def Let_def split: bool.splits)
qed

lemma channels_sendRSIAlert:
  "map_option channels (userConfigs (sendRSIAlert net chat rsiData userConfig finished st) c)
   = map_option channels (userConfigs st c)"
proof -
  let ?m = "Alert (js_le (rsi_value rsiData) (num (oversold (rsiThresholds userConfig)))) rsiData"
  let ?st1 = "snd (sendMessage net (Chat chat) ?m st)"
  have "userConfigs (snd (send_to_channels net chat ?m (channels userConfig) ?st1)) = userConfigs st"
    by (simp add: userConfigs_send_to_channels)
  then show ?thesis
    by (cases "send_to_channels net chat ?m (channels userConfig) ?st1")
       (auto simp add: sendRSIAlert_def sendMessage_def Let_def split: bool.splits option.splits)
qed

text \<open>
  C2. A dispatch in which the send to the chat succeeds and yet \<open>lastAlertTime\<close> keeps its
  old value: the alert is due and reaches chat 5, the send to the first channel is rejected,
  and so is the warning about it. The rejection of the warning leaves the loop through the
  outer \<open>catch\<close>, and line 235 is not reached.
\<close>

theorem failed_warning_keeps_lastAlertTime:
  "shouldSendAlert two_channel_config oversold_reading 400000
   \<and> fst (sendMessage first_send_only (Chat 5) (Alert True oversold_reading) two_channel_state)
   \<and> userConfigs (sendRSIAlert first_send_only 5 oversold_reading two_channel_config 400000
        two_channel_state) 5 = Some two_channel_config
   \<and> lastAlertTime two_channel_config = 0"
  by (simp add: shouldSendAlert_def ALERT_COOLDOWN_def sendRSIAlert_def sendMessage_def Let_def
      two_channel_config_def two_channel_state_def first_send_only_def oversold_reading_def
      js_le_def js_eq_def num_def)

text \<open>
  C3. In the same dispatch the second channel \<open>@b\<close> is never sent to, and no warning
  reaches the chat: the attempts are the alert to the chat, the alert to \<open>@a\<close> and the
  warning about \<open>@a\<close>, and nothing after it.
\<close>

theorem failed_warning_skips_channels:
  "sends (sendRSIAlert first_send_only 5 oversold_reading two_channel_config 400000
        two_channel_state)
   = [(Chat 5, Alert True oversold_reading, True),
      (Channel ''@a'', Alert True oversold_reading, False),
      (Chat 5, ChannelWarning ''@a'', False)]"
  by (simp add: sendRSIAlert_def sendMessage_def Let_def
      two_channel_config_def two_channel_state_def first_send_only_def oversold_reading_def
      js_le_def js_eq_def num_def)

end
